theory Spec2Isabelle
  imports Complex_Main
begin

section \<open>Data model (types.ts and the DOM objects the code reads)\<close>

text \<open>
  JavaScript numbers are modelled as real numbers: every statement below is about exact
  arithmetic. A division by zero yields an infinity or NaN in JavaScript and \<open>0\<close> here;
  where a result depends on a divisor, the statement assumes it nonzero.

  An object with \<open>width\<close> and \<open>height\<close> (an image element, a canvas, a size preset, a
  crop rectangle) is a record extending \<open>Size\<close>, so that the source's field names can be
  used for all of them. The anonymous \<open>{x, y}\<close> objects returned by the coordinate
  transforms are pairs.
\<close>

record Size =
  width :: real
  height :: real

type_synonym Image = Size

record CropRect = Size +
  x :: real
  y :: real

record SizePreset = Size +
  preset_id :: string
  label :: string
  lockAspectRatio :: bool

text \<open>
  The canvas element: its pixel size and the rectangle \<open>getBoundingClientRect()\<close> reports
  for it.
\<close>

record Canvas = Size +
  rect_left :: real
  rect_top :: real
  rect_width :: real
  rect_height :: real

record MouseEvent =
  clientX :: real
  clientY :: real

record WheelEvent = MouseEvent +
  deltaY :: real

section \<open>CropEngine\<close>

datatype DragMode = Move | ResizeTL | ResizeTR | ResizeBL | ResizeBR | Pan

record View =
  zoom :: real
  panX :: real
  panY :: real

record CropEngine =
  canvas :: Canvas
  image :: "Image option"
  cropRect :: "CropRect option"
  isDragging :: bool
  dragStart :: "(real \<times> real) option"
  dragMode :: "DragMode option"
  view :: View

subsection \<open>Coordinate systems\<close>

definition getMouseCanvasPos :: "CropEngine \<Rightarrow> 'a MouseEvent_scheme \<Rightarrow> real \<times> real" where
  "getMouseCanvasPos s e =
     (let scaleX = width (canvas s) / rect_width (canvas s);
          scaleY = height (canvas s) / rect_height (canvas s)
      in ((clientX e - rect_left (canvas s)) * scaleX,
          (clientY e - rect_top (canvas s)) * scaleY))"

definition getBaseScale :: "CropEngine \<Rightarrow> real" where
  "getBaseScale s =
     (case image s of
        None \<Rightarrow> 1
      | Some img \<Rightarrow>
          (let margin = 40;
               w = width (canvas s) - margin * 2;
               h = height (canvas s) - margin * 2
           in if w \<le> 0 \<or> h \<le> 0 then 1
              else min (w / width img) (h / height img)))"

definition imageToCanvas :: "CropEngine \<Rightarrow> real \<Rightarrow> real \<Rightarrow> real \<times> real" where
  "imageToCanvas s imgX imgY =
     (case image s of
        None \<Rightarrow> (0, 0)
      | Some img \<Rightarrow>
          (let baseScale = getBaseScale s;
               totalScale = baseScale * zoom (view s);
               cx = width (canvas s) / 2;
               cy = height (canvas s) / 2;
               imgCx = width img / 2;
               imgCy = height img / 2
           in (cx + panX (view s) + (imgX - imgCx) * totalScale,
               cy + panY (view s) + (imgY - imgCy) * totalScale)))"

definition canvasToImage :: "CropEngine \<Rightarrow> real \<Rightarrow> real \<Rightarrow> real \<times> real" where
  "canvasToImage s canvasX canvasY =
     (case image s of
        None \<Rightarrow> (0, 0)
      | Some img \<Rightarrow>
          (let baseScale = getBaseScale s;
               totalScale = baseScale * zoom (view s);
               cx = width (canvas s) / 2;
               cy = height (canvas s) / 2;
               imgCx = width img / 2;
               imgCy = height img / 2
           in (imgCx + (canvasX - cx - panX (view s)) / totalScale,
               imgCy + (canvasY - cy - panY (view s)) / totalScale)))"

subsection \<open>Wheel zoom\<close>

definition handleWheel :: "CropEngine \<Rightarrow> WheelEvent \<Rightarrow> CropEngine" where
  "handleWheel s e =
     (case image s of
        None \<Rightarrow> s
      | Some img \<Rightarrow>
          (let zoomIntensity = 0.1;
               delta = (if deltaY e > 0 then - zoomIntensity else zoomIntensity);
               newZoom = max 0.1 (min 10 (zoom (view s) * (1 + delta)));
               mouse = getMouseCanvasPos s e;
               imgPosBefore = canvasToImage s (fst mouse) (snd mouse);
               s1 = s\<lparr>view := (view s)\<lparr>zoom := newZoom\<rparr>\<rparr>;
               baseScale = getBaseScale s1;
               totalScale = baseScale * zoom (view s1);
               cx = width (canvas s1) / 2;
               cy = height (canvas s1) / 2;
               imgCx = width img / 2;
               imgCy = height img / 2
           in s1\<lparr>view := (view s1)
                 \<lparr>panX := fst mouse - cx - (fst imgPosBefore - imgCx) * totalScale,
                  panY := snd mouse - cy - (snd imgPosBefore - imgCy) * totalScale\<rparr>\<rparr>))"

subsection \<open>Construction and image loading\<close>

text \<open>
  \<open>setImage\<close> and \<open>handleMouseMove\<close> call the observer \<open>onCropChange\<close>; the model returns
  the new engine together with the rectangle passed to the observer (\<open>None\<close> when the
  observer is not called). \<open>render\<close> only draws and is left out.
\<close>

definition newCropEngine :: "Canvas \<Rightarrow> CropEngine" where
  "newCropEngine c =
     \<lparr>canvas = c, image = None, cropRect = None, isDragging = False,
      dragStart = None, dragMode = None, view = \<lparr>zoom = 1, panX = 0, panY = 0\<rparr>\<rparr>"

definition setImage :: "CropEngine \<Rightarrow> Image \<Rightarrow> CropEngine \<times> CropRect option" where
  "setImage s img =
     (let minDim = min (width img) (height img);
          size = minDim * 0.8;
          crop = \<lparr>width = size, height = size,
                  x = (width img - size) / 2, y = (height img - size) / 2\<rparr>
      in (s\<lparr>image := Some img, view := \<lparr>zoom = 1, panX = 0, panY = 0\<rparr>,
            cropRect := Some crop\<rparr>, Some crop))"

subsection \<open>Pointer gestures\<close>

definition hit :: "real \<times> real \<Rightarrow> real \<Rightarrow> real \<Rightarrow> bool" where
  "hit mouse hx hy =
     (let handleSize = 12
      in \<bar>fst mouse - hx\<bar> < handleSize \<and> \<bar>snd mouse - hy\<bar> < handleSize)"

definition handleMouseDown :: "CropEngine \<Rightarrow> 'a MouseEvent_scheme \<Rightarrow> CropEngine" where
  "handleMouseDown s e =
     (case image s of
        None \<Rightarrow> s
      | Some img \<Rightarrow>
         (case cropRect s of
            None \<Rightarrow> s
          | Some crop \<Rightarrow>
             (let mouse = getMouseCanvasPos s e;
                  cropCanvas = imageToCanvas s (x crop) (y crop);
                  cropBottomRight =
                    imageToCanvas s (x crop + width crop) (y crop + height crop);
                  cropW = fst cropBottomRight - fst cropCanvas;
                  cropH = snd cropBottomRight - snd cropCanvas;
                  mode =
                    (if hit mouse (fst cropCanvas) (snd cropCanvas) then ResizeTL
                     else if hit mouse (fst cropCanvas + cropW) (snd cropCanvas) then ResizeTR
                     else if hit mouse (fst cropCanvas) (snd cropCanvas + cropH) then ResizeBL
                     else if hit mouse (fst cropCanvas + cropW) (snd cropCanvas + cropH)
                       then ResizeBR
                     else if fst mouse > fst cropCanvas \<and> fst mouse < fst cropCanvas + cropW \<and>
                             snd mouse > snd cropCanvas \<and> snd mouse < snd cropCanvas + cropH
                       then Move
                     else Pan)
              in s\<lparr>dragMode := Some mode, isDragging := True, dragStart := Some mouse\<rparr>)))"

text \<open>
  The rectangle a drag in mode \<open>mode\<close> (one of the five modes other than \<open>Pan\<close>) leaves
  in \<open>cropRect\<close>: the body of the \<open>if (dragMode === 'move') ... else ...\<close> statement of
  \<open>handleMouseMove\<close>, with \<open>currentImg\<close> the pointer in image space and \<open>(dx, dy)\<close> the
  image-space delta since \<open>dragStart\<close>. Assignments are applied in the source's order.
\<close>

definition dragCrop ::
  "DragMode \<Rightarrow> Image \<Rightarrow> CropRect \<Rightarrow> real \<times> real \<Rightarrow> real \<Rightarrow> real \<Rightarrow> CropRect" where
  "dragCrop mode img crop currentImg dx dy =
     (case mode of
        Move \<Rightarrow>
          (let c1 = crop\<lparr>x := x crop + dx\<rparr>;
               c2 = c1\<lparr>y := y c1 + dy\<rparr>;
               c3 = c2\<lparr>x := max 0 (min (width img - width c2) (x c2))\<rparr>
           in c3\<lparr>y := max 0 (min (height img - height c3) (y c3))\<rparr>)
      | ResizeBR \<Rightarrow>
          (let fixedX = x crop;
               fixedY = y crop
           in crop\<lparr>width := max 10 (fst currentImg - fixedX),
                    height := max 10 (snd currentImg - fixedY)\<rparr>)
      | ResizeTL \<Rightarrow>
          (let fixedX = x crop + width crop;
               fixedY = y crop + height crop;
               newX = min (fixedX - 10) (fst currentImg);
               newY = min (fixedY - 10) (snd currentImg)
           in crop\<lparr>width := fixedX - newX, height := fixedY - newY, x := newX, y := newY\<rparr>)
      | ResizeTR \<Rightarrow>
          (let fixedX = x crop;
               fixedY = y crop + height crop;
               newY = min (fixedY - 10) (snd currentImg)
           in crop\<lparr>width := max 10 (fst currentImg - fixedX),
                    height := fixedY - newY, y := newY\<rparr>)
      | ResizeBL \<Rightarrow>
          (let fixedX = x crop + width crop;
               fixedY = y crop;
               newX = min (fixedX - 10) (fst currentImg)
           in crop\<lparr>width := fixedX - newX,
                    height := max 10 (snd currentImg - fixedY), x := newX\<rparr>)
      | Pan \<Rightarrow> crop)"

definition handleMouseMove ::
  "CropEngine \<Rightarrow> 'a MouseEvent_scheme \<Rightarrow> CropEngine \<times> CropRect option" where
  "handleMouseMove s e =
     (case (image s, cropRect s, dragMode s, dragStart s) of
        (Some img, Some crop, Some mode, Some start) \<Rightarrow>
          if \<not> isDragging s then (s, None)
          else
            (let mouse = getMouseCanvasPos s e
             in if mode = Pan then
                  (let dx = fst mouse - fst start;
                       dy = snd mouse - snd start
                   in (s\<lparr>view := (view s)\<lparr>panX := panX (view s) + dx,
                                            panY := panY (view s) + dy\<rparr>,
                         dragStart := Some mouse\<rparr>, None))
                else
                  (let currentImg = canvasToImage s (fst mouse) (snd mouse);
                       startImg = canvasToImage s (fst start) (snd start);
                       dx = fst currentImg - fst startImg;
                       dy = snd currentImg - snd startImg;
                       crop' = dragCrop mode img crop currentImg dx dy;
                       s' = s\<lparr>cropRect := Some crop'\<rparr>;
                       s'' = (if mode = Move then s'\<lparr>dragStart := Some mouse\<rparr> else s')
                   in (s'', Some crop')))
      | _ \<Rightarrow> (s, None))"

definition handleMouseUp :: "CropEngine \<Rightarrow> CropEngine" where
  "handleMouseUp s = s\<lparr>isDragging := False, dragMode := None, dragStart := None\<rparr>"

section \<open>BatchProcessor\<close>

datatype Format = Jpg | Png

text \<open>
  The Re-framer: the source rectangle \<open>generateImage\<close> passes to \<open>drawImage\<close>
  (\<open>sourceX, sourceY, sourceW, sourceH\<close>), computed from the image, the user's crop and
  the preset. Each reassignment of the source is a rebinding here, in the same order.
\<close>

definition sourceRect :: "Image \<Rightarrow> CropRect \<Rightarrow> SizePreset \<Rightarrow> CropRect" where
  "sourceRect img userCrop preset =
     (let cx = x userCrop + width userCrop / 2;
          cy = y userCrop + height userCrop / 2;
          targetRatio = width preset / height preset;
          userRatio = width userCrop / height userCrop;
          (sourceW, sourceH) =
            (if targetRatio > userRatio
             then (height userCrop * targetRatio, height userCrop)
             else (width userCrop, width userCrop / targetRatio));
          (sourceW, sourceH) =
            (if sourceW > width img then (width img, width img / targetRatio)
             else (sourceW, sourceH));
          (sourceW, sourceH) =
            (if sourceH > height img then (height img * targetRatio, height img)
             else (sourceW, sourceH));
          sourceX = cx - sourceW / 2;
          sourceY = cy - sourceH / 2;
          sourceX = (if sourceX < 0 then 0 else sourceX);
          sourceY = (if sourceY < 0 then 0 else sourceY);
          sourceX = (if sourceX + sourceW > width img then width img - sourceW else sourceX);
          sourceY = (if sourceY + sourceH > height img then height img - sourceH else sourceY)
      in \<lparr>width = sourceW, height = sourceH, x = sourceX, y = sourceY\<rparr>)"

text \<open>
  The browser facilities \<open>generateImage\<close> and \<open>process\<close> call, as parameters:
  whether \<open>getContext('2d')\<close> yields a context for a canvas of the preset's size; what
  \<open>drawImage\<close> followed by \<open>toBlob\<close> does (\<open>Inl\<close>: an exception is thrown, \<open>Inr None\<close>:
  \<open>toBlob\<close> delivers \<open>null\<close>, \<open>Inr (Some b)\<close>: it delivers the blob \<open>b\<close>); and how a number
  is printed in a template string.
\<close>

record 'b Browser =
  getContext2d :: "SizePreset \<Rightarrow> bool"
  drawAndEncode :: "Image \<Rightarrow> CropRect \<Rightarrow> SizePreset \<Rightarrow> Format \<Rightarrow> real \<Rightarrow> string + 'b option"
  numberToString :: "real \<Rightarrow> string"

definition generateImage ::
  "'b Browser \<Rightarrow> Image \<Rightarrow> CropRect \<Rightarrow> SizePreset \<Rightarrow> Format \<Rightarrow> real \<Rightarrow> string + 'b option" where
  "generateImage br img userCrop preset format quality =
     (if \<not> getContext2d br preset then Inr None
      else drawAndEncode br img (sourceRect img userCrop preset) preset format quality)"

text \<open>
  \<open>label.replace(/\s+/g, '_')\<close>: every maximal run of white space becomes one underscore.
  Characters stand for code units below 256; of those, \<open>\s\<close> matches tab, line feed,
  vertical tab, form feed, carriage return, space and no-break space.
\<close>

definition isSpace :: "char \<Rightarrow> bool" where
  "isSpace c = ((of_char c :: nat) \<in> {9, 10, 11, 12, 13, 32, 160})"

function replaceSpaces :: "string \<Rightarrow> string" where
  "replaceSpaces [] = []"
| "replaceSpaces (c # cs) =
     (if isSpace c then CHR ''_'' # replaceSpaces (dropWhile isSpace cs)
      else c # replaceSpaces cs)"
  by pat_completeness auto
termination
  by (relation "measure length") (auto simp: less_Suc_eq_le length_dropWhile_le)

definition filename :: "'b Browser \<Rightarrow> SizePreset \<Rightarrow> Format \<Rightarrow> string" where
  "filename br preset format =
     (let ext = (if format = Jpg then ''jpg'' else ''png'')
      in replaceSpaces (label preset) @ ''_'' @ numberToString br (width preset) @ ''x'' @
         numberToString br (height preset) @ ''.'' @ ext)"

text \<open>
  \<open>folder.file(filename, blob)\<close>: a file of the same name is replaced.
\<close>

fun folder_file :: "string \<Rightarrow> 'b \<Rightarrow> (string \<times> 'b) list \<Rightarrow> (string \<times> 'b) list" where
  "folder_file name blob [] = [(name, blob)]"
| "folder_file name blob ((n, b) # rest) =
     (if n = name then (name, blob) # rest else (n, b) # folder_file name blob rest)"

text \<open>
  \<open>process\<close>: one task per preset, joined by \<open>Promise.all\<close>. A task whose
  \<open>generateImage\<close> throws rejects, \<open>Promise.all\<close> then rejects, and \<open>process\<close> rejects at
  \<open>await Promise.all(promises)\<close>, before the archive is generated and saved: the result is
  \<open>Inl\<close> of the first rejection. Otherwise the result is \<open>Inr\<close> of the files of the archive
  handed to \<open>saveAs\<close>; the tasks' \<open>folder.file\<close> calls are taken in the order of the presets.
\<close>

fun addFiles ::
  "'b Browser \<Rightarrow> Format \<Rightarrow> (SizePreset \<times> (string + 'b option)) list \<Rightarrow>
   (string \<times> 'b) list \<Rightarrow> string + (string \<times> 'b) list" where
  "addFiles br format [] folder = Inr folder"
| "addFiles br format ((preset, Inl err) # rest) folder = Inl err"
| "addFiles br format ((preset, Inr None) # rest) folder = addFiles br format rest folder"
| "addFiles br format ((preset, Inr (Some blob)) # rest) folder =
     addFiles br format rest (folder_file (filename br preset format) blob folder)"

definition process ::
  "'b Browser \<Rightarrow> Image \<Rightarrow> CropRect \<Rightarrow> SizePreset list \<Rightarrow> Format \<Rightarrow> real \<Rightarrow>
   string + (string \<times> 'b) list" where
  "process br img userCrop presets format quality =
     addFiles br format
       (map (\<lambda>preset. (preset, generateImage br img userCrop preset format quality)) presets)
       []"

section \<open>PresetManager\<close>

text \<open>
  \<open>Partial<SizePreset>\<close>: each field of a preset, present or absent.
\<close>

record SizePresetPartial =
  id_opt :: "string option"
  width_opt :: "real option"
  height_opt :: "real option"
  label_opt :: "string option"
  lockAspectRatio_opt :: "bool option"

text \<open>The object spread \<open>{ ...p, ...updates }\<close>.\<close>

definition spread :: "SizePreset \<Rightarrow> SizePresetPartial \<Rightarrow> SizePreset" where
  "spread p updates =
     \<lparr>width = (case width_opt updates of None \<Rightarrow> width p | Some v \<Rightarrow> v),
      height = (case height_opt updates of None \<Rightarrow> height p | Some v \<Rightarrow> v),
      preset_id = (case id_opt updates of None \<Rightarrow> preset_id p | Some v \<Rightarrow> v),
      label = (case label_opt updates of None \<Rightarrow> label p | Some v \<Rightarrow> v),
      lockAspectRatio =
        (case lockAspectRatio_opt updates of None \<Rightarrow> lockAspectRatio p | Some v \<Rightarrow> v)\<rparr>"

text \<open>
  The item \<open>image-resizer-presets\<close> of \<open>localStorage\<close>: absent (or empty), a text
  \<open>JSON.parse\<close> rejects, or the JSON text of a preset list.
\<close>

datatype StoredItem = NoItem | Unparsable | Item "SizePreset list"

record PresetManager =
  presets :: "SizePreset list"
  storage :: StoredItem

text \<open>
  The methods that end in \<open>savePresets\<close> return the manager and the list passed to
  \<open>onChange\<close> (\<open>None\<close> when \<open>silent\<close>).
\<close>

definition getDefaultPresets :: "SizePreset list" where
  "getDefaultPresets =
     [\<lparr>width = 1080, height = 1080, preset_id = ''1'', label = ''Instagram Square'',
       lockAspectRatio = True\<rparr>,
      \<lparr>width = 1080, height = 1350, preset_id = ''2'', label = ''Instagram Portrait'',
       lockAspectRatio = True\<rparr>,
      \<lparr>width = 1200, height = 630, preset_id = ''3'', label = ''Facebook/Twitter'',
       lockAspectRatio = True\<rparr>,
      \<lparr>width = 1920, height = 1080, preset_id = ''4'', label = ''Full HD'',
       lockAspectRatio = True\<rparr>]"

definition loadPresets :: "StoredItem \<Rightarrow> PresetManager \<times> SizePreset list option" where
  "loadPresets stored =
     (let ps = (case stored of Item l \<Rightarrow> l | Unparsable \<Rightarrow> getDefaultPresets
                | NoItem \<Rightarrow> getDefaultPresets)
      in (\<lparr>presets = ps, storage = stored\<rparr>, Some ps))"

definition savePresets :: "PresetManager \<Rightarrow> bool \<Rightarrow> PresetManager \<times> SizePreset list option" where
  "savePresets m silent =
     (m\<lparr>storage := Item (presets m)\<rparr>, if \<not> silent then Some (presets m) else None)"

definition getPresets :: "PresetManager \<Rightarrow> SizePreset list" where
  "getPresets m = presets m"

definition addPreset :: "PresetManager \<Rightarrow> SizePreset \<Rightarrow> PresetManager \<times> SizePreset list option" where
  "addPreset m preset = savePresets (m\<lparr>presets := presets m @ [preset]\<rparr>) False"

definition removePreset :: "PresetManager \<Rightarrow> string \<Rightarrow> PresetManager \<times> SizePreset list option" where
  "removePreset m i =
     savePresets (m\<lparr>presets := filter (\<lambda>p. preset_id p \<noteq> i) (presets m)\<rparr>) False"

definition updatePreset ::
  "PresetManager \<Rightarrow> string \<Rightarrow> SizePresetPartial \<Rightarrow> bool \<Rightarrow>
   PresetManager \<times> SizePreset list option" where
  "updatePreset m i updates silent =
     savePresets
       (m\<lparr>presets := map (\<lambda>p. if preset_id p = i then spread p updates else p) (presets m)\<rparr>)
       silent"

section \<open>UIController\<close>

record AppState =
  originalImage :: "Image option"
  originalFile :: "string option"
  cropRect_app :: "CropRect option"
  presets_app :: "SizePreset list"
  isProcessing :: bool
  outputFormat :: Format
  jpgQuality :: real

text \<open>
  The canvas element is shared by the controller and the engine; the model keeps the
  engine's copy equal to \<open>canvasEl\<close>.
\<close>

record UIController =
  appState :: AppState
  cropEngine :: "CropEngine option"
  presetManager :: PresetManager
  canvasEl :: Canvas

definition onPresetsChanged :: "UIController \<Rightarrow> SizePreset list \<Rightarrow> UIController" where
  "onPresetsChanged ui ps = ui\<lparr>appState := (appState ui)\<lparr>presets_app := ps\<rparr>\<rparr>"

text \<open>A call of a manager method from the controller, with its \<open>onChange\<close> callback.\<close>

definition withManager ::
  "UIController \<Rightarrow> PresetManager \<times> SizePreset list option \<Rightarrow> UIController" where
  "withManager ui r =
     (let ui' = ui\<lparr>presetManager := fst r\<rparr>
      in case snd r of None \<Rightarrow> ui' | Some ps \<Rightarrow> onPresetsChanged ui' ps)"

definition newUIController :: "StoredItem \<Rightarrow> Canvas \<Rightarrow> UIController" where
  "newUIController stored c =
     withManager
       \<lparr>appState =
          \<lparr>originalImage = None, originalFile = None, cropRect_app = None,
           presets_app = [], isProcessing = False, outputFormat = Jpg, jpgQuality = 0.9\<rparr>,
        cropEngine = None,
        presetManager = \<lparr>presets = [], storage = stored\<rparr>,
        canvasEl = c\<rparr>
       (loadPresets stored)"

definition setCanvas :: "UIController \<Rightarrow> Canvas \<Rightarrow> UIController" where
  "setCanvas ui c =
     ui\<lparr>canvasEl := c, cropEngine := map_option (\<lambda>e. e\<lparr>canvas := c\<rparr>) (cropEngine ui)\<rparr>"

text \<open>
  A call of an engine method from the controller, with the engine's observer
  \<open>(rect) => { this.appState.cropRect = rect; }\<close>.
\<close>

definition withEngine ::
  "UIController \<Rightarrow> CropEngine \<times> CropRect option \<Rightarrow> UIController" where
  "withEngine ui r =
     (let ui' = ui\<lparr>cropEngine := Some (fst r)\<rparr>
      in case snd r of None \<Rightarrow> ui'
         | Some rect \<Rightarrow> ui'\<lparr>appState := (appState ui')\<lparr>cropRect_app := Some rect\<rparr>\<rparr>)"

definition onImageLoaded ::
  "UIController \<Rightarrow> Image \<Rightarrow> string \<Rightarrow> real \<Rightarrow> real \<Rightarrow> UIController" where
  "onImageLoaded ui img f clientWidth clientHeight =
     (let ui1 = ui\<lparr>appState := (appState ui)\<lparr>originalImage := Some img,
                                               originalFile := Some f\<rparr>\<rparr>;
          ui2 = (case cropEngine ui1 of
                   None \<Rightarrow> ui1\<lparr>cropEngine := Some (newCropEngine (canvasEl ui1))\<rparr>
                 | Some e \<Rightarrow> ui1);
          ui3 = setCanvas ui2 ((canvasEl ui2)\<lparr>width := clientWidth, height := clientHeight\<rparr>)
      in case cropEngine ui3 of
           None \<Rightarrow> ui3
         | Some e \<Rightarrow> withEngine ui3 (setImage e img))"

definition mathRound :: "real \<Rightarrow> real" where
  "mathRound v = of_int \<lfloor>v + 1 / 2\<rfloor>"

text \<open>
  The value a changed input of a preset's row delivers: the text of the label, the
  number \<open>parseInt\<close> reads from the width or height input, or the state of the checkbox.
\<close>

datatype PresetField = LabelField string | WidthField real | HeightField real
  | LockAspectRatioField bool

definition noUpdates :: SizePresetPartial where
  "noUpdates =
     \<lparr>id_opt = None, width_opt = None, height_opt = None, label_opt = None,
      lockAspectRatio_opt = None\<rparr>"

text \<open>
  The \<open>change\<close> listener of a row's inputs; \<open>preset\<close> is the preset the row was rendered
  from.
\<close>

definition onPresetInputChange :: "UIController \<Rightarrow> SizePreset \<Rightarrow> PresetField \<Rightarrow> UIController" where
  "onPresetInputChange ui preset field =
     (let updates =
            (case field of
               LockAspectRatioField checked \<Rightarrow> noUpdates\<lparr>lockAspectRatio_opt := Some checked\<rparr>
             | LabelField val \<Rightarrow> noUpdates\<lparr>label_opt := Some val\<rparr>
             | WidthField val \<Rightarrow>
                 (let u = noUpdates\<lparr>width_opt := Some val\<rparr>
                  in if lockAspectRatio preset
                     then u\<lparr>height_opt := Some (mathRound (val / (width preset / height preset)))\<rparr>
                     else u)
             | HeightField val \<Rightarrow>
                 (let u = noUpdates\<lparr>height_opt := Some val\<rparr>
                  in if lockAspectRatio preset
                     then u\<lparr>width_opt := Some (mathRound (val * (width preset / height preset)))\<rparr>
                     else u));
          ui' = withManager ui (updatePreset (presetManager ui) (preset_id preset) updates True)
      in ui'\<lparr>appState := (appState ui')\<lparr>presets_app := getPresets (presetManager ui')\<rparr>\<rparr>)"

text \<open>
  What a click on the download button leads to: the alerts shown, and the result of
  \<open>BatchProcessor.process\<close> when it is called (\<open>None\<close> when it is not).
\<close>

record 'b Download =
  alerts :: "string list"
  processed :: "(string + (string \<times> 'b) list) option"

definition handleDownload :: "'b Browser \<Rightarrow> UIController \<Rightarrow> 'b Download" where
  "handleDownload br ui =
     (case (originalImage (appState ui), cropRect_app (appState ui)) of
        (Some img, Some crop) \<Rightarrow>
          (let r = process br img crop (presets_app (appState ui))
                     (outputFormat (appState ui)) (jpgQuality (appState ui))
           in \<lparr>alerts = (case r of Inl err \<Rightarrow> [''Error processing images''] | Inr z \<Rightarrow> []),
               processed = Some r\<rparr>)
      | _ \<Rightarrow> \<lparr>alerts = [''Please upload an image first.''], processed = None\<rparr>)"

text \<open>
  The events the controller and its engine listen to. The listeners of the engine exist
  once the engine does. A click on the download button changes none of the state modelled
  here; what it does is \<open>handleDownload\<close>.
\<close>

datatype UIEvent =
    ImageLoaded Image string real real
  | WindowResize real real
  | CanvasLayout real real real real
  | AddPresetClick string
  | FormatJpgClick
  | FormatPngClick
  | QualityInput real
  | PresetInputChange SizePreset PresetField
  | DeletePresetClick SizePreset
  | MouseDown MouseEvent
  | MouseMove MouseEvent
  | MouseUp
  | Wheel WheelEvent
  | DownloadClick

fun step :: "UIController \<Rightarrow> UIEvent \<Rightarrow> UIController" where
  "step ui (ImageLoaded img f cw ch) = onImageLoaded ui img f cw ch"
| "step ui (WindowResize cw ch) =
     (if originalImage (appState ui) \<noteq> None \<and> cropEngine ui \<noteq> None
      then setCanvas ui ((canvasEl ui)\<lparr>width := cw, height := ch\<rparr>)
      else ui)"
| "step ui (CanvasLayout l t w h) =
     setCanvas ui ((canvasEl ui)\<lparr>rect_left := l, rect_top := t, rect_width := w,
                                  rect_height := h\<rparr>)"
| "step ui (AddPresetClick now) =
     withManager ui
       (addPreset (presetManager ui)
          \<lparr>width = 1080, height = 1080, preset_id = now, label = ''New Size'',
           lockAspectRatio = True\<rparr>)"
| "step ui FormatJpgClick = ui\<lparr>appState := (appState ui)\<lparr>outputFormat := Jpg\<rparr>\<rparr>"
| "step ui FormatPngClick = ui\<lparr>appState := (appState ui)\<lparr>outputFormat := Png\<rparr>\<rparr>"
| "step ui (QualityInput val) = ui\<lparr>appState := (appState ui)\<lparr>jpgQuality := val / 100\<rparr>\<rparr>"
| "step ui (PresetInputChange preset field) = onPresetInputChange ui preset field"
| "step ui (DeletePresetClick preset) =
     withManager ui (removePreset (presetManager ui) (preset_id preset))"
| "step ui (MouseDown e) =
     (case cropEngine ui of None \<Rightarrow> ui
      | Some eng \<Rightarrow> withEngine ui (handleMouseDown eng e, None))"
| "step ui (MouseMove e) =
     (case cropEngine ui of None \<Rightarrow> ui
      | Some eng \<Rightarrow> withEngine ui (handleMouseMove eng e))"
| "step ui MouseUp =
     (case cropEngine ui of None \<Rightarrow> ui
      | Some eng \<Rightarrow> withEngine ui (handleMouseUp eng, None))"
| "step ui (Wheel e) =
     (case cropEngine ui of None \<Rightarrow> ui
      | Some eng \<Rightarrow> withEngine ui (handleWheel eng e, None))"
| "step ui DownloadClick = ui"

definition run :: "UIController \<Rightarrow> UIEvent list \<Rightarrow> UIController" where
  "run ui events = foldl step ui events"

section \<open>Example states\<close>

text \<open>
  The states the concrete instances below are evaluated at: a canvas of 880 by 680
  pixels shown at its own size, and an image of 1600 by 1200 pixels, whose base scale is
  \<open>1 / 2\<close>.
\<close>

abbreviation exampleCanvas :: Canvas where
  "exampleCanvas \<equiv>
     \<lparr>width = 880, height = 680, rect_left = 0, rect_top = 0,
      rect_width = 880, rect_height = 680\<rparr>"

abbreviation exampleImage :: Image where
  "exampleImage \<equiv> \<lparr>width = 1600, height = 1200\<rparr>"

abbreviation exampleEngine :: "DragMode \<Rightarrow> real \<Rightarrow> CropEngine" where
  "exampleEngine mode z \<equiv>
     \<lparr>canvas = exampleCanvas, image = Some exampleImage,
      cropRect = Some \<lparr>width = 400, height = 300, x = 400, y = 300\<rparr>,
      isDragging = True, dragStart = Some (240, 190), dragMode = Some mode,
      view = \<lparr>zoom = z, panX = 30, panY = - 12\<rparr>\<rparr>"

text \<open>
  A browser that gives no context for a canvas beyond 32767 pixels, in which rasterizing
  the preset with id \<open>2\<close> throws and every other preset yields a blob (here the preset's
  label); two of the default presets and an oversized one.
\<close>

abbreviation exampleBrowser :: "string Browser" where
  "exampleBrowser \<equiv>
     \<lparr>getContext2d = (\<lambda>preset. width preset \<le> 32767 \<and> height preset \<le> 32767),
      drawAndEncode = (\<lambda>img source preset format quality.
         if preset_id preset = ''2'' then Inl ''InvalidStateError''
         else Inr (Some (label preset))),
      numberToString = (\<lambda>n. if n = 1080 then ''1080'' else if n = 1350 then ''1350''
         else if n = 1200 then ''1200'' else if n = 630 then ''630'' else ''0'')\<rparr>"

abbreviation presetSquare :: SizePreset where
  "presetSquare \<equiv>
     \<lparr>width = 1080, height = 1080, preset_id = ''1'', label = ''Instagram Square'',
      lockAspectRatio = True\<rparr>"

abbreviation presetPortrait :: SizePreset where
  "presetPortrait \<equiv>
     \<lparr>width = 1080, height = 1350, preset_id = ''2'', label = ''Instagram Portrait'',
      lockAspectRatio = True\<rparr>"

abbreviation presetPoster :: SizePreset where
  "presetPoster \<equiv>
     \<lparr>width = 40000, height = 40000, preset_id = ''5'', label = ''Poster'',
      lockAspectRatio = True\<rparr>"

abbreviation exampleCrop :: CropRect where
  "exampleCrop \<equiv> \<lparr>width = 400, height = 300, x = 400, y = 300\<rparr>"

text \<open>
  A controller with the example image loaded, the example crop and a given preset list,
  exporting JPEG at quality 0.9.
\<close>

abbreviation exampleUI :: "SizePreset list \<Rightarrow> UIController" where
  "exampleUI pl \<equiv>
     \<lparr>appState =
        \<lparr>originalImage = Some exampleImage, originalFile = Some ''photo.png'',
         cropRect_app = Some exampleCrop, presets_app = pl, isProcessing = False,
         outputFormat = Jpg, jpgQuality = 0.9\<rparr>,
      cropEngine = Some (exampleEngine Move 1),
      presetManager = \<lparr>presets = pl, storage = Item pl\<rparr>,
      canvasEl = exampleCanvas\<rparr>"

text \<open>
  What holds of the controller after every sequence of events: an image and a crop
  rectangle are recorded together, and the engine exists only once an image is loaded.
\<close>

definition consistent :: "UIController \<Rightarrow> bool" where
  "consistent ui \<longleftrightarrow>
     (originalImage (appState ui) = None \<longleftrightarrow> cropRect_app (appState ui) = None) \<and>
     (cropEngine ui \<noteq> None \<longrightarrow> originalImage (appState ui) \<noteq> None)"

section \<open>The camera\<close>

lemma getBaseScale_pos:
  assumes "image s = Some img" and "0 < width img" and "0 < height img"
  shows "0 < getBaseScale s"
  using assms by (simp add: getBaseScale_def Let_def)

lemma getBaseScale_view: "getBaseScale (s\<lparr>view := v\<rparr>) = getBaseScale s"
  by (simp add: getBaseScale_def split: option.split)

lemma handleWheel_view:
  assumes "image s = Some img"
  shows "handleWheel s e = s\<lparr>view :=
     (let mouse = getMouseCanvasPos s e;
          p = canvasToImage s (fst mouse) (snd mouse);
          z = max 0.1 (min 10 (zoom (view s) * (1 + (if deltaY e > 0 then - 0.1 else 0.1))));
          t = getBaseScale s * z
      in \<lparr>zoom = z,
          panX = fst mouse - width (canvas s) / 2 - (fst p - width img / 2) * t,
          panY = snd mouse - height (canvas s) / 2 - (snd p - height img / 2) * t\<rparr>)\<rparr>"
  using assms by (simp add: handleWheel_def Let_def getBaseScale_view)

text \<open>
  C6. With an image loaded, a positive base scale and a zoom within \<open>[0.1, 10]\<close>,
  \<open>canvasToImage\<close> undoes \<open>imageToCanvas\<close> at every image-space point.
\<close>

theorem canvasToImage_imageToCanvas:
  assumes "image s = Some img" and "0 < getBaseScale s"
    and "0.1 \<le> zoom (view s)" and "zoom (view s) \<le> 10"
  shows "canvasToImage s (fst (imageToCanvas s ix iy)) (snd (imageToCanvas s ix iy)) = (ix, iy)"
  using assms by (simp add: canvasToImage_def imageToCanvas_def Let_def)

theorem canvasToImage_imageToCanvas_witness:
  "canvasToImage (exampleEngine Move 2)
     (fst (imageToCanvas (exampleEngine Move 2) 100 250))
     (snd (imageToCanvas (exampleEngine Move 2) 100 250)) = (100, 250)"
  by (rule canvasToImage_imageToCanvas) (simp_all add: getBaseScale_def)

text \<open>
  C4. A wheel event on a loaded image (of positive size) whose zoom is within
  \<open>[0.1, 10]\<close> leaves the zoom within \<open>[0.1, 10]\<close>; the image-space point computed for
  the pointer is the one under the pointer before the event, and the new view maps it to
  the pointer again.
\<close>

theorem handleWheel_anchor:
  assumes "image s = Some img" and "0 < width img" and "0 < height img"
    and "0.1 \<le> zoom (view s)" and "zoom (view s) \<le> 10"
  shows "0.1 \<le> zoom (view (handleWheel s e)) \<and> zoom (view (handleWheel s e)) \<le> 10 \<and>
     (let mouse = getMouseCanvasPos s e;
          imgPos = canvasToImage s (fst mouse) (snd mouse)
      in imageToCanvas s (fst imgPos) (snd imgPos) = mouse \<and>
         imageToCanvas (handleWheel s e) (fst imgPos) (snd imgPos) = mouse)"
proof -
  have b: "getBaseScale s \<noteq> 0"
    using getBaseScale_pos[OF assms(1-3)] by simp
  have z: "zoom (view s) \<noteq> 0"
    using assms(4) by simp
  have before: "imageToCanvas s (fst (canvasToImage s mx my)) (snd (canvasToImage s mx my))
      = (mx, my)" for mx my
    using assms(1) b z by (simp add: imageToCanvas_def canvasToImage_def Let_def)
  have after: "imageToCanvas (handleWheel s e)
      (fst (canvasToImage s (fst (getMouseCanvasPos s e)) (snd (getMouseCanvasPos s e))))
      (snd (canvasToImage s (fst (getMouseCanvasPos s e)) (snd (getMouseCanvasPos s e))))
      = getMouseCanvasPos s e"
    using assms(1)
    by (simp add: handleWheel_view[OF assms(1)] imageToCanvas_def getBaseScale_view Let_def
        prod_eq_iff)
  have bounds: "0.1 \<le> zoom (view (handleWheel s e)) \<and> zoom (view (handleWheel s e)) \<le> 10"
    by (simp add: handleWheel_view[OF assms(1)] Let_def)
  show ?thesis
    using before after bounds by (simp add: Let_def)
qed

theorem handleWheel_anchor_witness:
  "0.1 \<le> zoom (view (handleWheel (exampleEngine Move 2)
                       \<lparr>clientX = 300, clientY = 200, deltaY = 120\<rparr>)) \<and>
   zoom (view (handleWheel (exampleEngine Move 2)
                \<lparr>clientX = 300, clientY = 200, deltaY = 120\<rparr>)) \<le> 10 \<and>
   (let mouse = getMouseCanvasPos (exampleEngine Move 2)
                  \<lparr>clientX = 300, clientY = 200, deltaY = 120\<rparr>;
        imgPos = canvasToImage (exampleEngine Move 2) (fst mouse) (snd mouse)
    in imageToCanvas (exampleEngine Move 2) (fst imgPos) (snd imgPos) = mouse \<and>
       imageToCanvas (handleWheel (exampleEngine Move 2)
                        \<lparr>clientX = 300, clientY = 200, deltaY = 120\<rparr>)
         (fst imgPos) (snd imgPos) = mouse)"
  by (rule handleWheel_anchor[where img = exampleImage]) simp_all

text \<open>
  C9. When a wheel event leaves the zoom at its previous value, the whole engine state,
  and so \<open>zoom\<close>, \<open>panX\<close> and \<open>panY\<close>, is unchanged (with no image loaded the handler
  returns at once; a loaded image has positive size).
\<close>

theorem handleWheel_at_limit:
  assumes "zoom (view (handleWheel s e)) = zoom (view s)"
    and "\<forall>img. image s = Some img \<longrightarrow> 0 < width img \<and> 0 < height img"
  shows "handleWheel s e = s"
proof (cases "image s")
  case None
  then show ?thesis by (simp add: handleWheel_def)
next
  case (Some img)
  with assms(2) have b: "getBaseScale s \<noteq> 0"
    using getBaseScale_pos[of s img] by simp
  let ?z = "max 0.1 (min 10 (zoom (view s) * (1 + (if deltaY e > 0 then - 0.1 else 0.1))))"
  have zeq: "?z = zoom (view s)"
    using assms(1) by (simp add: handleWheel_view[OF Some] Let_def)
  have z: "zoom (view s) \<noteq> 0"
    using zeq by (simp split: if_splits)
  have "view (handleWheel s e) = view s"
    using b z zeq Some by (simp add: handleWheel_view[OF Some] Let_def canvasToImage_def)
  moreover have "handleWheel s e = s\<lparr>view := view (handleWheel s e)\<rparr>"
    by (simp add: handleWheel_view[OF Some])
  ultimately show ?thesis by simp
qed

theorem handleWheel_at_limit_witness:
  "handleWheel (exampleEngine Move 10) \<lparr>clientX = 300, clientY = 200, deltaY = - 120\<rparr>
     = exampleEngine Move 10"
  by (rule handleWheel_at_limit) (simp_all add: handleWheel_def Let_def)

section \<open>The crop state machine\<close>

lemma move_keeps_invariants:
  assumes "0 \<le> x crop" and "0 \<le> y crop" and "x crop + width crop \<le> width img"
    and "y crop + height crop \<le> height img" and "10 \<le> width crop" and "10 \<le> height crop"
  shows "0 \<le> x (dragCrop Move img crop p dx dy) \<and> 0 \<le> y (dragCrop Move img crop p dx dy) \<and>
     x (dragCrop Move img crop p dx dy) + width (dragCrop Move img crop p dx dy) \<le> width img \<and>
     y (dragCrop Move img crop p dx dy) + height (dragCrop Move img crop p dx dy) \<le> height img \<and>
     10 \<le> width (dragCrop Move img crop p dx dy) \<and>
     10 \<le> height (dragCrop Move img crop p dx dy)"
  using assms by (auto simp add: dragCrop_def Let_def max_def min_def)

lemma resize_keeps_min_size:
  assumes "mode \<in> {ResizeTL, ResizeTR, ResizeBL, ResizeBR}"
  shows "10 \<le> width (dragCrop mode img crop p dx dy) \<and>
         10 \<le> height (dragCrop mode img crop p dx dy)"
  using assms by (auto simp add: dragCrop_def Let_def)

text \<open>
  C1. The claim fails for the resizing states: no branch of the resize code clamps the
  moving corner to the image. A gesture on a fresh engine: the image is loaded (default
  crop \<open>{x: 320, y: 120, width: 960, height: 960}\<close>), the pointer goes down on the
  bottom-right handle at canvas position \<open>(680, 580)\<close> and moves to \<open>(870, 600)\<close>, still on
  the canvas. The crop rectangle then ends at \<open>x + width = 1660\<close>, beyond the image's width
  of 1600.
\<close>

theorem resize_br_leaves_image:
  "dragMode (handleMouseDown (fst (setImage (newCropEngine exampleCanvas) exampleImage))
              \<lparr>clientX = 680, clientY = 580\<rparr>) = Some ResizeBR \<and>
   cropRect (fst (handleMouseMove
       (handleMouseDown (fst (setImage (newCropEngine exampleCanvas) exampleImage))
          \<lparr>clientX = 680, clientY = 580\<rparr>)
       \<lparr>clientX = 870, clientY = 600\<rparr>))
     = Some \<lparr>width = 1340, height = 1000, x = 320, y = 120\<rparr> \<and>
   width exampleImage
     < x \<lparr>width = 1340, height = 1000, x = 320, y = 120\<rparr>
       + width \<lparr>width = 1340, height = 1000, x = 320, y = 120\<rparr>"
  by (simp add: newCropEngine_def setImage_def handleMouseDown_def handleMouseMove_def
      getMouseCanvasPos_def imageToCanvas_def canvasToImage_def getBaseScale_def hit_def
      dragCrop_def Let_def)

text \<open>
  C5. A pointer move in a resizing state leaves the corner opposite to the dragged one
  where it was: \<open>(x, y)\<close> for \<open>br\<close>, \<open>(x + width, y + height)\<close> for \<open>tl\<close>,
  \<open>(x, y + height)\<close> for \<open>tr\<close> and \<open>(x + width, y)\<close> for \<open>bl\<close>. The engine is in a drag
  on a loaded image; the crop is at least 10 by 10 before the move.
\<close>

theorem resize_fixed_corner:
  assumes "isDragging s" and "image s = Some img" and "cropRect s = Some crop"
    and "dragStart s = Some start" and "dragMode s = Some mode"
    and "10 \<le> width crop" and "10 \<le> height crop"
  shows "\<exists>crop'. cropRect (fst (handleMouseMove s e)) = Some crop' \<and>
           (mode = ResizeBR \<longrightarrow> x crop' = x crop \<and> y crop' = y crop) \<and>
           (mode = ResizeTL \<longrightarrow>
              x crop' + width crop' = x crop + width crop \<and>
              y crop' + height crop' = y crop + height crop) \<and>
           (mode = ResizeTR \<longrightarrow>
              x crop' = x crop \<and> y crop' + height crop' = y crop + height crop) \<and>
           (mode = ResizeBL \<longrightarrow>
              x crop' + width crop' = x crop + width crop \<and> y crop' = y crop)"
  using assms(1-5) by (cases mode) (simp_all add: handleMouseMove_def dragCrop_def Let_def)

theorem resize_fixed_corner_witness:
  "\<exists>crop'. cropRect (fst (handleMouseMove (exampleEngine ResizeTL 2)
                             \<lparr>clientX = 100, clientY = 90\<rparr>)) = Some crop' \<and>
           x crop' + width crop' = 800 \<and> y crop' + height crop' = 600"
  using resize_fixed_corner[of "exampleEngine ResizeTL 2" exampleImage
      "\<lparr>width = 400, height = 300, x = 400, y = 300\<rparr>" "(240, 190)" ResizeTL
      "\<lparr>clientX = 100, clientY = 90\<rparr>"]
  by simp

section \<open>The Re-framer\<close>

text \<open>
  C2. For an image, a user crop and a target size of positive width and height, the source
  rectangle lies within \<open>[0, image.width] \<times> [0, image.height]\<close>, has a positive height,
  and has exactly the target's aspect ratio.
\<close>

theorem sourceRect_in_bounds_exact_ratio:
  assumes "0 < width img" and "0 < height img" and "0 < width userCrop"
    and "0 < height userCrop" and "0 < width preset" and "0 < height preset"
  shows "0 \<le> x (sourceRect img userCrop preset) \<and> 0 \<le> y (sourceRect img userCrop preset) \<and>
     x (sourceRect img userCrop preset) + width (sourceRect img userCrop preset) \<le> width img \<and>
     y (sourceRect img userCrop preset) + height (sourceRect img userCrop preset)
       \<le> height img \<and>
     0 < height (sourceRect img userCrop preset) \<and>
     width (sourceRect img userCrop preset) / height (sourceRect img userCrop preset)
       = width preset / height preset"
proof -
  let ?r = "sourceRect img userCrop preset"
  define r where "r = width preset / height preset"
  define p0 where "p0 =
    (if r > width userCrop / height userCrop then (height userCrop * r, height userCrop)
     else (width userCrop, width userCrop / r))"
  define p1 where "p1 = (if fst p0 > width img then (width img, width img / r) else p0)"
  define p2 where "p2 = (if snd p1 > height img then (height img * r, height img) else p1)"
  have r: "0 < r"
    using assms by (simp add: r_def)
  have p0: "fst p0 = snd p0 * r" "0 < snd p0"
    using r assms by (auto simp: p0_def)
  have p1: "fst p1 = snd p1 * r" "0 < snd p1" "fst p1 \<le> width img"
    using r assms(1) p0 by (auto simp: p1_def)
  have shrink: "height img * r \<le> width img" if "snd p1 > height img"
  proof -
    from that r have "height img * r < snd p1 * r" by simp
    with p1 show ?thesis by simp
  qed
  have p2: "fst p2 = snd p2 * r" "0 < snd p2" "fst p2 \<le> width img" "snd p2 \<le> height img"
    using p1 assms(2) shrink by (auto simp: p2_def)
  have size: "width ?r = fst p2" "height ?r = snd p2"
    by (simp_all add: sourceRect_def Let_def split_beta p2_def p1_def p0_def r_def)
  have xpos: "x ?r =
     (let sx = x userCrop + width userCrop / 2 - width ?r / 2;
          sx = (if sx < 0 then 0 else sx)
      in if sx + width ?r > width img then width img - width ?r else sx)"
    by (simp add: sourceRect_def Let_def split_beta)
  have ypos: "y ?r =
     (let sy = y userCrop + height userCrop / 2 - height ?r / 2;
          sy = (if sy < 0 then 0 else sy)
      in if sy + height ?r > height img then height img - height ?r else sy)"
    by (simp add: sourceRect_def Let_def split_beta)
  have "0 \<le> x ?r \<and> x ?r + width ?r \<le> width img"
    using p2(3) size(1) by (simp add: xpos Let_def)
  moreover have "0 \<le> y ?r \<and> y ?r + height ?r \<le> height img"
    using p2(4) size(2) by (simp add: ypos Let_def)
  moreover have "width ?r / height ?r = r"
    using p2(1,2) size by simp
  ultimately show ?thesis
    using p2(2) size(2) by (simp add: r_def)
qed

theorem sourceRect_in_bounds_exact_ratio_witness:
  "0 \<le> x (sourceRect \<lparr>width = 1000, height = 800\<rparr>
            \<lparr>width = 300, height = 200, x = 100, y = 100\<rparr>
            \<lparr>width = 1080, height = 1350, preset_id = ''2'', label = ''Instagram Portrait'',
             lockAspectRatio = True\<rparr>) \<and>
   width (sourceRect \<lparr>width = 1000, height = 800\<rparr>
            \<lparr>width = 300, height = 200, x = 100, y = 100\<rparr>
            \<lparr>width = 1080, height = 1350, preset_id = ''2'', label = ''Instagram Portrait'',
             lockAspectRatio = True\<rparr>)
     / height (sourceRect \<lparr>width = 1000, height = 800\<rparr>
            \<lparr>width = 300, height = 200, x = 100, y = 100\<rparr>
            \<lparr>width = 1080, height = 1350, preset_id = ''2'', label = ''Instagram Portrait'',
             lockAspectRatio = True\<rparr>)
     = 1080 / 1350"
  using sourceRect_in_bounds_exact_ratio[of "\<lparr>width = 1000, height = 800\<rparr>"
      "\<lparr>width = 300, height = 200, x = 100, y = 100\<rparr>"
      "\<lparr>width = 1080, height = 1350, preset_id = ''2'', label = ''Instagram Portrait'',
        lockAspectRatio = True\<rparr>"]
  by simp

text \<open>
  C3, as amended. For the image 2000 by 1000, the user crop
  \<open>{x: 500, y: 250, width: 500, height: 500}\<close> and the target 1200 by 630, the height is
  held at 500, the width is expanded to \<open>500 * (1200 / 630) = 20000 / 21\<close>, about 952.38,
  and the rectangle, centred on \<open>(750, 500)\<close>, starts at \<open>x = 750 - 10000 / 21 = 5750 / 21\<close>,
  about 273.81, and \<open>y = 250\<close>.
\<close>

theorem sourceRect_scenario:
  "sourceRect \<lparr>width = 2000, height = 1000\<rparr>
     \<lparr>width = 500, height = 500, x = 500, y = 250\<rparr>
     \<lparr>width = 1200, height = 630, preset_id = ''3'', label = ''Facebook/Twitter'',
      lockAspectRatio = True\<rparr>
   = \<lparr>width = 20000 / 21, height = 500, x = 5750 / 21, y = 250\<rparr>"
  by (simp add: sourceRect_def Let_def)

text \<open>
  C3, as stated. The rectangle \<open>{x: 273.75, y: 250, width: 952.5, height: 500}\<close>, which
  comes from rounding the ratio \<open>1200 / 630\<close> to 1.905, is not the one computed.
\<close>

theorem sourceRect_scenario_not_rounded:
  "sourceRect \<lparr>width = 2000, height = 1000\<rparr>
     \<lparr>width = 500, height = 500, x = 500, y = 250\<rparr>
     \<lparr>width = 1200, height = 630, preset_id = ''3'', label = ''Facebook/Twitter'',
      lockAspectRatio = True\<rparr>
   \<noteq> \<lparr>width = 952.5, height = 500, x = 273.75, y = 250\<rparr>"
  by (simp add: sourceRect_def Let_def)

section \<open>Batch export\<close>

lemma folder_file_names: "fst ` set (folder_file n b fl) = insert n (fst ` set fl)"
proof (induction fl)
  case Nil
  then show ?case by simp
next
  case (Cons a fl)
  obtain m c where a: "a = (m, c)" by (cases a)
  show ?case
  proof (cases "m = n")
    case True
    then show ?thesis by (simp add: a)
  next
    case False
    then show ?thesis using Cons by (simp add: a insert_commute)
  qed
qed

lemma folder_file_entries: "set (folder_file n b fl) \<subseteq> insert (n, b) (set fl)"
  by (induction fl) (auto split: if_splits)

lemma addFiles_rejects:
  "(p, Inl e) \<in> set xs \<Longrightarrow>
   \<exists>p' e'. (p', Inl e') \<in> set xs \<and> addFiles br f xs folder = Inl e'"
  by (induction br f xs folder rule: addFiles.induct) auto

lemma addFiles_completes:
  "\<forall>p e. (p, Inl e) \<notin> set xs \<Longrightarrow> \<exists>files. addFiles br f xs folder = Inr files"
  by (induction br f xs folder rule: addFiles.induct) auto

lemma addFiles_names:
  "addFiles br f xs folder = Inr files \<Longrightarrow>
   fst ` set files = fst ` set folder \<union> {filename br p f | p b. (p, Inr (Some b)) \<in> set xs}"
proof (induction br f xs folder rule: addFiles.induct)
  case (1 br format folder)
  then show ?case by auto
next
  case (2 br format preset err rest folder)
  then show ?case by simp
next
  case (3 br format preset rest folder)
  then show ?case by auto
next
  case (4 br format preset blob rest folder)
  then have "fst ` set files = fst ` set (folder_file (filename br preset format) blob folder)
        \<union> {filename br p format | p b. (p, Inr (Some b)) \<in> set rest}"
    by simp
  then show ?case unfolding folder_file_names by auto
qed

lemma addFiles_entries:
  "addFiles br f xs folder = Inr files \<Longrightarrow> (n, b) \<in> set files \<Longrightarrow>
   (n, b) \<in> set folder \<or> (\<exists>p. (p, Inr (Some b)) \<in> set xs \<and> n = filename br p f)"
proof (induction br f xs folder rule: addFiles.induct)
  case (1 br format folder)
  then show ?case by auto
next
  case (2 br format preset err rest folder)
  then show ?case by simp
next
  case (3 br format preset rest folder)
  then show ?case by auto
next
  case (4 br format preset blob rest folder)
  then have "(n, b) \<in> set (folder_file (filename br preset format) blob folder) \<or>
      (\<exists>p. (p, Inr (Some b)) \<in> set rest \<and> n = filename br p format)"
    by simp
  then show ?case
    using folder_file_entries[of "filename br preset format" blob folder] by auto
qed

lemma in_tasks:
  "(p, r) \<in> set (map (\<lambda>preset. (preset, g preset)) pl) \<longleftrightarrow> p \<in> set pl \<and> g p = r"
  by auto

text \<open>
  C7, as stated. The claim fails where a generation raises: with the presets \<open>Instagram Square\<close>,
  whose generation succeeds, and \<open>Instagram Portrait\<close>, whose generation throws,
  \<open>process\<close> rejects and no archive is produced.
\<close>

theorem process_raise_rejects_batch:
  "generateImage exampleBrowser exampleImage exampleCrop presetSquare Jpg 0.9
     = Inr (Some ''Instagram Square'') \<and>
   generateImage exampleBrowser exampleImage exampleCrop presetPortrait Jpg 0.9
     = Inl ''InvalidStateError'' \<and>
   process exampleBrowser exampleImage exampleCrop [presetSquare, presetPortrait] Jpg 0.9
     = Inl ''InvalidStateError''"
  by (simp add: process_def generateImage_def)

lemma process_rejects:
  assumes "p \<in> set pl" and "generateImage br img crop p f q = Inl e"
  shows "\<exists>p' \<in> set pl. \<exists>e'.
           generateImage br img crop p' f q = Inl e' \<and> process br img crop pl f q = Inl e'"
proof -
  have "(p, Inl e) \<in> set (map (\<lambda>preset. (preset, generateImage br img crop preset f q)) pl)"
    using assms unfolding in_tasks by simp
  from addFiles_rejects[OF this, of br f "[]"]
  show ?thesis unfolding in_tasks by (auto simp add: process_def)
qed

lemma process_completes:
  assumes "\<forall>p \<in> set pl. \<forall>e. generateImage br img crop p f q \<noteq> Inl e"
  shows "\<exists>files. process br img crop pl f q = Inr files"
proof -
  have "\<forall>p e. (p, Inl e) \<notin>
      set (map (\<lambda>preset. (preset, generateImage br img crop preset f q)) pl)"
    using assms unfolding in_tasks by metis
  from addFiles_completes[OF this, of br f "[]"]
  show ?thesis by (simp add: process_def)
qed

lemma process_names:
  assumes "process br img crop pl f q = Inr files"
  shows "fst ` set files =
      {filename br p f | p.
         p \<in> set pl \<and> (\<exists>b. generateImage br img crop p f q = Inr (Some b))}"
  using addFiles_names[OF assms[unfolded process_def]] unfolding in_tasks by auto

lemma process_entries:
  assumes "process br img crop pl f q = Inr files" and "(n, b) \<in> set files"
  shows "\<exists>p \<in> set pl. n = filename br p f \<and> generateImage br img crop p f q = Inr (Some b)"
  using addFiles_entries[OF assms(1)[unfolded process_def] assms(2)] unfolding in_tasks by auto

lemma process_includes:
  assumes files: "process br img crop pl f q = Inr files"
    and p: "p \<in> set pl" "generateImage br img crop p f q = Inr (Some b)"
    and same: "\<forall>p' \<in> set pl. \<forall>b'. filename br p' f = filename br p f \<longrightarrow>
                 generateImage br img crop p' f q = Inr (Some b') \<longrightarrow> b' = b"
  shows "(filename br p f, b) \<in> set files"
proof -
  have "filename br p f \<in> fst ` set files"
    unfolding process_names[OF files] using p by blast
  then obtain b' where b': "(filename br p f, b') \<in> set files"
    by force
  from process_entries[OF files b'] obtain p' where
    p': "p' \<in> set pl" "filename br p' f = filename br p f"
    "generateImage br img crop p' f q = Inr (Some b')"
    by auto
  have "b' = b"
    using same p' by simp
  with b' show ?thesis by simp
qed

text \<open>
  C7, as amended. A download request on a loaded image with a crop, over the presets of
  the controller. When no preset's generation raises, the batch completes, also when some
  presets produce no blob: \<open>process\<close> resolves with the archive and no alert is shown; the
  names in the archive are exactly those of the presets that produced a blob; every file
  holds the blob of a preset of that name; and the blob of a preset is in the archive
  under the preset's name unless another preset of the same name produced a different
  blob. A preset that produced no blob leaves no entry and is not reported. When some
  preset's generation raises, \<open>process\<close> rejects with the error of a preset, no archive is
  produced, and the single alert \<open>Error processing images\<close> is shown.
\<close>

theorem batch_export_outcome:
  assumes "originalImage (appState ui) = Some img"
    and "cropRect_app (appState ui) = Some crop"
    and "presets_app (appState ui) = pl"
    and "outputFormat (appState ui) = f"
    and "jpgQuality (appState ui) = q"
  shows
    "((\<forall>p \<in> set pl. \<forall>e. generateImage br img crop p f q \<noteq> Inl e) \<longrightarrow>
        (\<exists>files.
           process br img crop pl f q = Inr files \<and>
           handleDownload br ui = \<lparr>alerts = [], processed = Some (Inr files)\<rparr> \<and>
           fst ` set files =
             {filename br p f | p.
                p \<in> set pl \<and> (\<exists>b. generateImage br img crop p f q = Inr (Some b))} \<and>
           (\<forall>n b. (n, b) \<in> set files \<longrightarrow>
              (\<exists>p \<in> set pl.
                 n = filename br p f \<and> generateImage br img crop p f q = Inr (Some b))) \<and>
           (\<forall>p \<in> set pl. \<forall>b.
              generateImage br img crop p f q = Inr (Some b) \<longrightarrow>
              (\<forall>p' \<in> set pl. \<forall>b'.
                 filename br p' f = filename br p f \<longrightarrow>
                 generateImage br img crop p' f q = Inr (Some b') \<longrightarrow> b' = b) \<longrightarrow>
              (filename br p f, b) \<in> set files))) \<and>
     ((\<exists>p \<in> set pl. \<exists>e. generateImage br img crop p f q = Inl e) \<longrightarrow>
        (\<exists>p \<in> set pl. \<exists>e.
           generateImage br img crop p f q = Inl e \<and>
           process br img crop pl f q = Inl e \<and>
           handleDownload br ui =
             \<lparr>alerts = [''Error processing images''], processed = Some (Inl e)\<rparr>))"
proof (intro conjI impI)
  assume ok: "\<forall>p \<in> set pl. \<forall>e. generateImage br img crop p f q \<noteq> Inl e"
  from process_completes[OF ok] obtain files where
    files: "process br img crop pl f q = Inr files" by blast
  have dl: "handleDownload br ui = \<lparr>alerts = [], processed = Some (Inr files)\<rparr>"
    using assms files by (simp add: handleDownload_def Let_def)
  have incl: "\<forall>p \<in> set pl. \<forall>b.
      generateImage br img crop p f q = Inr (Some b) \<longrightarrow>
      (\<forall>p' \<in> set pl. \<forall>b'.
         filename br p' f = filename br p f \<longrightarrow>
         generateImage br img crop p' f q = Inr (Some b') \<longrightarrow> b' = b) \<longrightarrow>
      (filename br p f, b) \<in> set files"
    using process_includes[OF files] by blast
  have ent: "\<forall>n b. (n, b) \<in> set files \<longrightarrow>
      (\<exists>p \<in> set pl.
         n = filename br p f \<and> generateImage br img crop p f q = Inr (Some b))"
    using process_entries[OF files] by blast
  show "\<exists>files.
      process br img crop pl f q = Inr files \<and>
      handleDownload br ui = \<lparr>alerts = [], processed = Some (Inr files)\<rparr> \<and>
      fst ` set files =
        {filename br p f | p.
           p \<in> set pl \<and> (\<exists>b. generateImage br img crop p f q = Inr (Some b))} \<and>
      (\<forall>n b. (n, b) \<in> set files \<longrightarrow>
         (\<exists>p \<in> set pl.
            n = filename br p f \<and> generateImage br img crop p f q = Inr (Some b))) \<and>
      (\<forall>p \<in> set pl. \<forall>b.
         generateImage br img crop p f q = Inr (Some b) \<longrightarrow>
         (\<forall>p' \<in> set pl. \<forall>b'.
            filename br p' f = filename br p f \<longrightarrow>
            generateImage br img crop p' f q = Inr (Some b') \<longrightarrow> b' = b) \<longrightarrow>
         (filename br p f, b) \<in> set files)"
    using files dl process_names[OF files] ent incl by (intro exI[of _ files] conjI)
next
  assume "\<exists>p \<in> set pl. \<exists>e. generateImage br img crop p f q = Inl e"
  then obtain p e where "p \<in> set pl" "generateImage br img crop p f q = Inl e"
    by blast
  from process_rejects[OF this] obtain p' e' where r:
    "p' \<in> set pl" "generateImage br img crop p' f q = Inl e'"
    "process br img crop pl f q = Inl e'"
    by blast
  have "handleDownload br ui =
      \<lparr>alerts = [''Error processing images''], processed = Some (Inl e')\<rparr>"
    using assms r(3) by (simp add: handleDownload_def Let_def)
  with r show "\<exists>p \<in> set pl. \<exists>e.
      generateImage br img crop p f q = Inl e \<and>
      process br img crop pl f q = Inl e \<and>
      handleDownload br ui =
        \<lparr>alerts = [''Error processing images''], processed = Some (Inl e)\<rparr>"
    by blast
qed

theorem batch_export_outcome_witness:
  "handleDownload exampleBrowser (exampleUI [presetSquare, presetPoster]) =
     \<lparr>alerts = [],
      processed = Some (Inr [(''Instagram_Square_1080x1080.jpg'', ''Instagram Square'')])\<rparr> \<and>
   handleDownload exampleBrowser (exampleUI [presetSquare, presetPortrait]) =
     \<lparr>alerts = [''Error processing images''], processed = Some (Inl ''InvalidStateError'')\<rparr>"
proof -
  have ok: "\<forall>p \<in> set [presetSquare, presetPoster]. \<forall>e.
      generateImage exampleBrowser exampleImage exampleCrop p Jpg 0.9 \<noteq> Inl e"
    by (simp add: generateImage_def)
  have bad: "\<exists>p \<in> set [presetSquare, presetPortrait]. \<exists>e.
      generateImage exampleBrowser exampleImage exampleCrop p Jpg 0.9 = Inl e"
    by (simp add: generateImage_def)
  have "\<exists>files. process exampleBrowser exampleImage exampleCrop [presetSquare, presetPoster] Jpg 0.9
        = Inr files \<and>
      handleDownload exampleBrowser (exampleUI [presetSquare, presetPoster]) =
        \<lparr>alerts = [], processed = Some (Inr files)\<rparr>"
    using ok batch_export_outcome[where ui = "exampleUI [presetSquare, presetPoster]"
      and img = exampleImage and crop = exampleCrop and pl = "[presetSquare, presetPoster]"
      and f = Jpg and q = "0.9" and br = exampleBrowser, THEN conjunct1]
    by fastforce
  moreover have "process exampleBrowser exampleImage exampleCrop [presetSquare, presetPoster] Jpg 0.9
      = Inr [(''Instagram_Square_1080x1080.jpg'', ''Instagram Square'')]"
    by (simp add: process_def generateImage_def filename_def isSpace_def)
  ultimately have first: "handleDownload exampleBrowser (exampleUI [presetSquare, presetPoster]) =
     \<lparr>alerts = [],
      processed = Some (Inr [(''Instagram_Square_1080x1080.jpg'', ''Instagram Square'')])\<rparr>"
    by auto
  have "\<exists>e. process exampleBrowser exampleImage exampleCrop [presetSquare, presetPortrait] Jpg 0.9
        = Inl e \<and>
      handleDownload exampleBrowser (exampleUI [presetSquare, presetPortrait]) =
        \<lparr>alerts = [''Error processing images''], processed = Some (Inl e)\<rparr>"
    using bad batch_export_outcome[where ui = "exampleUI [presetSquare, presetPortrait]"
      and img = exampleImage and crop = exampleCrop and pl = "[presetSquare, presetPortrait]"
      and f = Jpg and q = "0.9" and br = exampleBrowser, THEN conjunct2]
    by fastforce
  moreover have "process exampleBrowser exampleImage exampleCrop [presetSquare, presetPortrait] Jpg 0.9
      = Inl ''InvalidStateError''"
    by (simp add: process_def generateImage_def)
  ultimately have second: "handleDownload exampleBrowser (exampleUI [presetSquare, presetPortrait]) =
     \<lparr>alerts = [''Error processing images''], processed = Some (Inl ''InvalidStateError'')\<rparr>"
    by auto
  from first second show ?thesis by simp
qed

text \<open>
  Two presets whose labels differ only in their white space share a file name; the
  archive then has one entry for both (with the \<open>folder.file\<close> calls in the presets'
  order, the later preset's).
\<close>

lemma shared_filename_one_entry:
  "process exampleBrowser exampleImage exampleCrop
     [\<lparr>width = 1080, height = 1080, preset_id = ''6'', label = ''New Size'',
       lockAspectRatio = True\<rparr>,
      \<lparr>width = 1080, height = 1080, preset_id = ''7'', label = ''New  Size'',
       lockAspectRatio = True\<rparr>] Jpg 0.9
   = Inr [(''New_Size_1080x1080.jpg'', ''New  Size'')]"
  by (simp add: process_def generateImage_def filename_def isSpace_def)

section \<open>The export precondition\<close>

lemma withManager_frame:
  "originalImage (appState (withManager ui r)) = originalImage (appState ui)"
  "cropRect_app (appState (withManager ui r)) = cropRect_app (appState ui)"
  "cropEngine (withManager ui r) = cropEngine ui"
  by (simp_all add: withManager_def onPresetsChanged_def Let_def split: option.split)

lemma setCanvas_frame:
  "appState (setCanvas ui c) = appState ui"
  "cropEngine (setCanvas ui c) = None \<longleftrightarrow> cropEngine ui = None"
  by (simp_all add: setCanvas_def)

lemma withEngine_frame:
  "appState (withEngine ui (eng, None)) = appState ui"
  "cropEngine (withEngine ui r) \<noteq> None"
  by (simp_all add: withEngine_def Let_def split: option.split)

lemma consistent_step: "consistent ui \<Longrightarrow> consistent (step ui ev)"
proof (cases ev)
  case (ImageLoaded img f cw ch)
  then show ?thesis
    by (simp add: consistent_def onImageLoaded_def Let_def setCanvas_def withEngine_def
        setImage_def split: option.split)
next
  case (MouseMove e)
  assume c: "consistent ui"
  show ?thesis
  proof (cases "cropEngine ui")
    case None
    then show ?thesis using c MouseMove by simp
  next
    case (Some eng)
    then show ?thesis using c MouseMove
      by (cases "snd (handleMouseMove eng e)")
         (auto simp add: consistent_def withEngine_def Let_def)
  qed
qed (auto simp add: consistent_def onPresetInputChange_def Let_def withManager_frame
      setCanvas_frame withEngine_frame split: option.split)

lemma consistent_run: "consistent ui \<Longrightarrow> consistent (run ui evs)"
  unfolding run_def by (induction evs arbitrary: ui) (simp_all add: consistent_step)

lemma consistent_new: "consistent (newUIController stored c)"
  by (simp add: consistent_def newUIController_def withManager_frame)

text \<open>
  C8. In any state of the controller with no crop rectangle, a download request shows the
  alert and does not call \<open>process\<close>. In every state the controller reaches from its
  construction, by any sequence of events, the request is refused in this way exactly when
  no crop rectangle is defined: the guard's other disjunct, no image, holds in the same
  states.
\<close>

theorem export_refused_iff_no_crop:
  "(cropRect_app (appState ui) = None \<longrightarrow>
      handleDownload br ui =
        \<lparr>alerts = [''Please upload an image first.''], processed = None\<rparr>) \<and>
   (processed (handleDownload br (run (newUIController stored c) evs)) = None \<longleftrightarrow>
      cropRect_app (appState (run (newUIController stored c) evs)) = None)"
proof -
  have "consistent (run (newUIController stored c) evs)"
    by (rule consistent_run[OF consistent_new])
  then show ?thesis
    by (auto simp add: handleDownload_def consistent_def Let_def split: option.split)
qed

theorem export_refused_iff_no_crop_witness:
  "handleDownload exampleBrowser (newUIController NoItem exampleCanvas) =
     \<lparr>alerts = [''Please upload an image first.''], processed = None\<rparr> \<and>
   processed (handleDownload exampleBrowser
     (run (newUIController NoItem exampleCanvas)
        [ImageLoaded exampleImage ''photo.png'' 880 680])) \<noteq> None"
  using export_refused_iff_no_crop[where ui = "newUIController NoItem exampleCanvas"
      and br = exampleBrowser and stored = NoItem and c = exampleCanvas
      and evs = "[ImageLoaded exampleImage ''photo.png'' 880 680]"]
  by (simp add: newUIController_def withManager_def loadPresets_def onPresetsChanged_def
      run_def onImageLoaded_def setCanvas_def withEngine_def setImage_def newCropEngine_def
      Let_def)

section \<open>Preset updates\<close>

text \<open>
  C10. \<open>updatePreset\<close> keeps the length and the order of the list; a preset whose id is
  not the given one is unchanged; a preset whose id is the given one takes each field
  from the update where the update has it and keeps its own otherwise; and when no preset
  has the given id the list is unchanged.
\<close>

theorem updatePreset_frame:
  "(let ps = presets m; ps' = presets (fst (updatePreset m i u silent))
    in length ps' = length ps \<and>
       (\<forall>k < length ps.
          (preset_id (ps ! k) \<noteq> i \<longrightarrow> ps' ! k = ps ! k) \<and>
          (preset_id (ps ! k) = i \<longrightarrow>
             width (ps' ! k) = (case width_opt u of None \<Rightarrow> width (ps ! k) | Some v \<Rightarrow> v) \<and>
             height (ps' ! k) = (case height_opt u of None \<Rightarrow> height (ps ! k) | Some v \<Rightarrow> v) \<and>
             preset_id (ps' ! k) = (case id_opt u of None \<Rightarrow> preset_id (ps ! k) | Some v \<Rightarrow> v) \<and>
             label (ps' ! k) = (case label_opt u of None \<Rightarrow> label (ps ! k) | Some v \<Rightarrow> v) \<and>
             lockAspectRatio (ps' ! k) =
               (case lockAspectRatio_opt u of None \<Rightarrow> lockAspectRatio (ps ! k)
                | Some v \<Rightarrow> v))) \<and>
       ((\<forall>p \<in> set ps. preset_id p \<noteq> i) \<longrightarrow> ps' = ps))"
proof -
  have "map (\<lambda>p. if preset_id p = i then spread p u else p) ps = ps"
    if "\<forall>p \<in> set ps. preset_id p \<noteq> i" for ps
    using that by (induction ps) auto
  then show ?thesis
    by (simp add: updatePreset_def savePresets_def Let_def spread_def)
qed

theorem updatePreset_frame_witness:
  "length (presets (fst (updatePreset \<lparr>presets = getDefaultPresets, storage = NoItem\<rparr> ''3''
       (noUpdates\<lparr>width_opt := Some 800\<rparr>) True))) = 4 \<and>
   presets (fst (updatePreset \<lparr>presets = getDefaultPresets, storage = NoItem\<rparr> ''3''
       (noUpdates\<lparr>width_opt := Some 800\<rparr>) True)) ! 2
     = \<lparr>width = 800, height = 630, preset_id = ''3'', label = ''Facebook/Twitter'',
        lockAspectRatio = True\<rparr> \<and>
   presets (fst (updatePreset \<lparr>presets = getDefaultPresets, storage = NoItem\<rparr> ''3''
       (noUpdates\<lparr>width_opt := Some 800\<rparr>) True)) ! 0 = getDefaultPresets ! 0 \<and>
   presets (fst (updatePreset \<lparr>presets = getDefaultPresets, storage = NoItem\<rparr> ''7''
       (noUpdates\<lparr>width_opt := Some 800\<rparr>) True)) = getDefaultPresets"
  using updatePreset_frame[where m = "\<lparr>presets = getDefaultPresets, storage = NoItem\<rparr>"
      and i = "''3''" and u = "noUpdates\<lparr>width_opt := Some 800\<rparr>" and silent = True]
    updatePreset_frame[where m = "\<lparr>presets = getDefaultPresets, storage = NoItem\<rparr>"
      and i = "''7''" and u = "noUpdates\<lparr>width_opt := Some 800\<rparr>" and silent = True]
  by (simp add: updatePreset_def savePresets_def getDefaultPresets_def noUpdates_def
      spread_def)

end
